theory Spec2Isabelle
  imports Main "HOL-Library.Sublist"
begin

section \<open>The entry module of the prompted app: \<^verbatim>\<open>frontend/apps/prompted/src/main.tsx\<close>\<close>

text \<open>
  The module is fifteen lines: three imports, the component \<^verbatim>\<open>App\<close> and one
  statement that mounts \<^verbatim>\<open>App\<close> into the element with identifier \<^verbatim>\<open>app\<close>.
  Everything it calls (\<^verbatim>\<open>document.getElementById\<close>, \<^verbatim>\<open>createRoot\<close>,
  \<^verbatim>\<open>render\<close>) and the two components it composes (\<^verbatim>\<open>Header\<close>,
  \<^verbatim>\<open>Counter\<close>) are imported, so the module is modelled over the bindings it
  imports, and a model of the host document and of the two \<^verbatim>\<open>react-dom/client\<close>
  calls is given separately.
\<close>

subsection \<open>React elements\<close>

text \<open>
  A JSX expression \<^verbatim>\<open><T a="v">kids</T>\<close> evaluates to an element: its type (a lower-case
  tag is a host element, a capitalised name refers to the component bound to that name in
  the module), its properties in the order written, and its children.
\<close>

datatype elem_type = Intrinsic string | ComponentRef string

type_synonym props = "(string \<times> string) list"

datatype jsx = Element elem_type props "jsx list"

text \<open>
  \<^verbatim>\<open>
  const App = () => (
    <div className="flex flex-col p-4">
      <Header title="Web" />
      <div className="card">
        <Counter />
      </div>
    </div>
  );
  \<close>
  React calls a function component with its properties; \<^verbatim>\<open>App\<close> declares no parameter
  and so ignores them.
\<close>

definition App :: "props \<Rightarrow> jsx" where
  "App _ =
     Element (Intrinsic ''div'') [(''className'', ''flex flex-col p-4'')]
       [Element (ComponentRef ''Header'') [(''title'', ''Web'')] [],
        Element (Intrinsic ''div'') [(''className'', ''card'')]
          [Element (ComponentRef ''Counter'') [] []]]"

subsection \<open>Observers on elements\<close>

fun elem_type_of :: "jsx \<Rightarrow> elem_type" where
  "elem_type_of (Element ty ps kids) = ty"

fun props_of :: "jsx \<Rightarrow> props" where
  "props_of (Element ty ps kids) = ps"

fun children_of :: "jsx \<Rightarrow> jsx list" where
  "children_of (Element ty ps kids) = kids"

text \<open>All elements of a tree, the root first, in document order.\<close>

fun elements :: "jsx \<Rightarrow> jsx list" where
  "elements (Element ty ps kids) = Element ty ps kids # concat (map elements kids)"

text \<open>The elements of a tree that refer to the component of a given name.\<close>

definition uses_of :: "string \<Rightarrow> jsx \<Rightarrow> jsx list" where
  "uses_of c t = filter (\<lambda>e. elem_type_of e = ComponentRef c) (elements t)"

text \<open>The names of the components a tree refers to, in document order.\<close>

fun component_name :: "elem_type \<Rightarrow> string option" where
  "component_name (Intrinsic t) = None"
| "component_name (ComponentRef c) = Some c"

definition component_refs :: "jsx \<Rightarrow> string list" where
  "component_refs t = List.map_filter (\<lambda>e. component_name (elem_type_of e)) (elements t)"

subsection \<open>The mount statement\<close>

text \<open>
  \<^verbatim>\<open>createRoot(document.getElementById("app")!).render(<App />);\<close>

  The three functions are bindings the module imports from its host (the DOM and
  \<^verbatim>\<open>react-dom/client\<close>); they are the fields of \<open>host\<close>, over a state \<open>'s\<close>,
  DOM nodes \<open>'n\<close>, React roots \<open>'r\<close> and thrown values \<open>'e\<close>.
  \<^verbatim>\<open>getElementById\<close> returns \<^verbatim>\<open>HTMLElement | null\<close>; the other two may
  throw and may change the state.
\<close>

record ('s, 'n, 'r, 'e) host =
  getElementById :: "string \<Rightarrow> 's \<Rightarrow> 'n option"
  createRoot :: "'n option \<Rightarrow> 's \<Rightarrow> ('e + 'r) \<times> 's"
  render :: "'r \<Rightarrow> jsx \<Rightarrow> 's \<Rightarrow> ('e + unit) \<times> 's"

text \<open>
  TypeScript's postfix \<^verbatim>\<open>!\<close> only changes the static type of its operand: the
  compiler erases it, and the emitted JavaScript is the operand itself.
\<close>

definition non_null :: "'n option \<Rightarrow> 'n option" where
  "non_null x = x"

text \<open>The calls a run of the module makes to its imports, in order, with their arguments.\<close>

datatype ('n, 'r) call =
  GetElementById string
| CreateRoot "'n option"
| Render 'r jsx

record ('s, 'n, 'r, 'e) run =
  outcome :: "'e + unit"
  final :: 's
  calls :: "('n, 'r) call list"

definition app_element :: jsx where
  "app_element = Element (ComponentRef ''App'') [] []"

definition main :: "('s, 'n, 'r, 'e) host \<Rightarrow> 's \<Rightarrow> ('s, 'n, 'r, 'e) run" where
  "main h s =
     (let container = non_null (getElementById h ''app'' s) in
      case createRoot h container s of
        (Inl e, s1) \<Rightarrow>
          \<lparr>outcome = Inl e, final = s1,
           calls = [GetElementById ''app'', CreateRoot container]\<rparr>
      | (Inr root, s1) \<Rightarrow>
          (case render h root app_element s1 of
             (r, s2) \<Rightarrow>
               \<lparr>outcome = r, final = s2,
                calls = [GetElementById ''app'', CreateRoot container,
                         Render root app_element]\<rparr>))"

subsection \<open>The text of the module\<close>










subsection \<open>The host document\<close>

text \<open>
  Modelled from the spec: the host document, \<^verbatim>\<open>document.getElementById\<close> and the two
  calls \<^verbatim>\<open>createRoot\<close> and \<^verbatim>\<open>render\<close> of \<^verbatim>\<open>react-dom/client\<close> are not
  part of the source tree. The spec gives them as: the application expects an element with
  identifier \<^verbatim>\<open>app\<close> in the host document; mounting populates that element with the
  rendered tree; if the element is missing the mount call fails at startup.

  A document is a tree of nodes. A host element has a tag, properties and children. The
  output of the imported components is not known to this module, so an instance of one is
  kept as a node of its own, with the properties and children it was given.
  A node is referred to by its path from the root.
\<close>

datatype node =
  HostElement string props "node list"
| ComponentInstance string props "node list"

type_synonym path = "nat list"

type_synonym document = node

fun child_nodes :: "node \<Rightarrow> node list" where
  "child_nodes (HostElement t ps kids) = kids"
| "child_nodes (ComponentInstance c ps kids) = kids"

fun with_children :: "node \<Rightarrow> node list \<Rightarrow> node" where
  "with_children (HostElement t ps kids) new = HostElement t ps new"
| "with_children (ComponentInstance c ps kids) new = ComponentInstance c ps new"

fun has_id :: "string \<Rightarrow> node \<Rightarrow> bool" where
  "has_id i (HostElement t ps kids) = (map_of ps ''id'' = Some i)"
| "has_id i (ComponentInstance c ps kids) = False"

text \<open>All nodes of a tree, the root first, in document order.\<close>

fun subtree :: "node \<Rightarrow> node list" where
  "subtree (HostElement t ps kids) = HostElement t ps kids # concat (map subtree kids)"
| "subtree (ComponentInstance c ps kids) =
     ComponentInstance c ps kids # concat (map subtree kids)"

text \<open>Whether a document contains a host element with a given identifier.\<close>

definition has_element_with_id :: "string \<Rightarrow> document \<Rightarrow> bool" where
  "has_element_with_id i d = list_ex (has_id i) (subtree d)"

text \<open>
  Modelled from the spec: \<^verbatim>\<open>document.getElementById\<close> is not part of the source
  tree. The spec speaks of an element with identifier \<^verbatim>\<open>app\<close> existing in the host
  document or being absent from it: the lookup returns null when no host element has the
  identifier and, when several have it, the first in document order.
\<close>

fun find_id :: "string \<Rightarrow> node \<Rightarrow> path option"
and find_id_in :: "string \<Rightarrow> nat \<Rightarrow> node list \<Rightarrow> path option" where
  "find_id i (HostElement t ps kids) =
     (if map_of ps ''id'' = Some i then Some [] else find_id_in i 0 kids)"
| "find_id i (ComponentInstance c ps kids) = find_id_in i 0 kids"
| "find_id_in i k [] = None"
| "find_id_in i k (n # ns) =
     (case find_id i n of Some p \<Rightarrow> Some (k # p) | None \<Rightarrow> find_id_in i (Suc k) ns)"

fun node_at :: "path \<Rightarrow> node \<Rightarrow> node option" where
  "node_at [] n = Some n"
| "node_at (k # p) n =
     (if k < length (child_nodes n) then node_at p (child_nodes n ! k) else None)"

fun replace_children :: "path \<Rightarrow> node list \<Rightarrow> node \<Rightarrow> node" where
  "replace_children [] new n = with_children n new"
| "replace_children (k # p) new n =
     (if k < length (child_nodes n)
      then with_children n ((child_nodes n)[k := replace_children p new (child_nodes n ! k)])
      else n)"

text \<open>
  Modelled from the spec: rendering an element. A host element becomes a host node; a
  reference to \<^verbatim>\<open>App\<close>, the one component this module defines, is rendered by calling
  it with the element's properties and rendering what it returns; a reference to an
  imported component becomes an instance node. \<open>local_refs\<close> counts the references to
  \<^verbatim>\<open>App\<close>; what \<^verbatim>\<open>App\<close> returns has none, which is why rendering ends.
\<close>

fun local_refs :: "jsx \<Rightarrow> nat" where
  "local_refs (Element ty ps kids) =
     (if ty = ComponentRef ''App'' then 1 else 0) + sum_list (map local_refs kids)"

function instantiate :: "jsx \<Rightarrow> node" where
  "instantiate (Element (Intrinsic t) ps kids) = HostElement t ps (map instantiate kids)"
| "instantiate (Element (ComponentRef c) ps kids) =
     (if c = ''App'' then instantiate (App ps)
      else ComponentInstance c ps (map instantiate kids))"
  by pat_completeness auto
termination
proof (relation "measures [local_refs, size]", goal_cases)
  case 1
  show ?case by simp
next
  case (2 t ps kids x)
  then have "local_refs x \<le> sum_list (map local_refs kids)"
    by (induction kids) auto
  with 2 show ?case
    by (auto simp: less_Suc_eq_le size_list_estimation')
next
  case (3 c ps kids)
  then show ?case by (simp add: App_def)
next
  case (4 c ps kids x)
  then have "local_refs x \<le> sum_list (map local_refs kids)"
    by (induction kids) auto
  with 4 show ?case
    by (auto simp: less_Suc_eq_le size_list_estimation')
qed

text \<open>
  Modelled from the spec: \<^verbatim>\<open>createRoot\<close> fails when it is not given an element of the
  document (in particular when it is given null) and leaves the document as it is;
  otherwise it returns a root for that element. \<^verbatim>\<open>render\<close> populates the root's
  element with the rendered tree: the tree becomes the content of the element.
\<close>

datatype react_error = TargetContainerNotDomElement

definition dom_getElementById :: "string \<Rightarrow> document \<Rightarrow> path option" where
  "dom_getElementById i d = find_id i d"

definition react_createRoot ::
  "path option \<Rightarrow> document \<Rightarrow> (react_error + path) \<times> document" where
  "react_createRoot container d =
     (case container of
        None \<Rightarrow> (Inl TargetContainerNotDomElement, d)
      | Some p \<Rightarrow>
          (case node_at p d of
             Some (HostElement t ps kids) \<Rightarrow> (Inr p, d)
           | _ \<Rightarrow> (Inl TargetContainerNotDomElement, d)))"

definition react_render ::
  "path \<Rightarrow> jsx \<Rightarrow> document \<Rightarrow> (react_error + unit) \<times> document" where
  "react_render root e d = (Inr (), replace_children root [instantiate e] d)"

definition browser :: "(document, path, path, react_error) host" where
  "browser =
     \<lparr>getElementById = dom_getElementById,
      createRoot = react_createRoot,
      render = react_render\<rparr>"

text \<open>
  Modelled from the spec: the event loop of the host is not part of the source tree. The
  state of a page is its document together with the jobs queued to run after the module
  has been evaluated; a job is a render that was put off. The spec has the mount as a
  single synchronous operation, with no asynchronous work and no suspension point:
  \<^verbatim>\<open>createRoot\<close> and \<^verbatim>\<open>render\<close> do to the document what they do in \<open>browser\<close>,
  before they return, and queue nothing.
\<close>

datatype job = DeferredRender path jsx

record page =
  doc :: document
  queue :: "job list"

definition browser_with_queue :: "(page, path, path, react_error) host" where
  "browser_with_queue =
     \<lparr>getElementById = (\<lambda>i s. dom_getElementById i (doc s)),
      createRoot =
        (\<lambda>container s.
           case react_createRoot container (doc s) of (r, d) \<Rightarrow> (r, s\<lparr>doc := d\<rparr>)),
      render =
        (\<lambda>root e s.
           case react_render root e (doc s) of (r, d) \<Rightarrow> (r, s\<lparr>doc := d\<rparr>))\<rparr>"

text \<open>Two host documents to run the module on: one with the mount point, one without.\<close>

definition page_with_app :: document where
  "page_with_app =
     HostElement ''html'' []
       [HostElement ''head'' [] [],
        HostElement ''body'' [] [HostElement ''div'' [(''id'', ''app'')] []]]"

definition page_without_app :: document where
  "page_without_app =
     HostElement ''html'' []
       [HostElement ''head'' [] [],
        HostElement ''body'' [] [HostElement ''div'' [(''id'', ''root'')] []]]"

text \<open>Which calls of a run create a root, and which render.\<close>

fun is_createRoot :: "('n, 'r) call \<Rightarrow> bool" where
  "is_createRoot (CreateRoot c) = True"
| "is_createRoot _ = False"

fun is_render :: "('n, 'r) call \<Rightarrow> bool" where
  "is_render (Render r e) = True"
| "is_render _ = False"

section \<open>Properties\<close>

subsection \<open>Lookup and update by path\<close>

lemma find_id_in_shape:
  "find_id_in i k ns = Some p \<Longrightarrow>
     \<exists>j q. p = (k + j) # q \<and> j < length ns \<and> find_id i (ns ! j) = Some q \<and>
            (\<forall>j' < j. find_id i (ns ! j') = None)"
proof (induction ns arbitrary: k)
  case Nil
  then show ?case by simp
next
  case (Cons n ns)
  show ?case
  proof (cases "find_id i n")
    case (Some q)
    with Cons.prems have "p = (k + 0) # q" by simp
    with Some show ?thesis by (intro exI [of _ 0] exI [of _ q]) simp
  next
    case None
    with Cons.prems have "find_id_in i (Suc k) ns = Some p" by simp
    from Cons.IH [OF this] obtain j q where
      jq: "p = (Suc k + j) # q" "j < length ns" "find_id i (ns ! j) = Some q"
          "\<forall>j' < j. find_id i (ns ! j') = None" by blast
    have "\<forall>j' < Suc j. find_id i ((n # ns) ! j') = None"
      using None jq(4) by (auto simp: less_Suc_eq_0_disj)
    with jq show ?thesis by (intro exI [of _ "Suc j"] exI [of _ q]) simp
  qed
qed

lemma find_id_in_intro:
  "j < length ns \<Longrightarrow> find_id i (ns ! j) = Some q \<Longrightarrow>
   \<forall>j' < j. find_id i (ns ! j') = None \<Longrightarrow>
     find_id_in i k ns = Some ((k + j) # q)"
proof (induction ns arbitrary: k j)
  case Nil
  then show ?case by simp
next
  case (Cons n ns)
  show ?case
  proof (cases j)
    case 0
    with Cons.prems show ?thesis by simp
  next
    case (Suc j0)
    with Cons.prems have n: "find_id i n = None" by auto
    from Suc Cons.prems have "find_id_in i (Suc k) ns = Some ((Suc k + j0) # q)"
      by (intro Cons.IH) auto
    with n Suc show ?thesis by simp
  qed
qed

lemma child_nodes_with_children [simp]: "child_nodes (with_children n new) = new"
  by (cases n) simp_all

lemma with_children_twice [simp]: "with_children (with_children n a) b = with_children n b"
  by (cases n) simp_all

lemma has_id_with_children [simp]: "has_id i (with_children n new) = has_id i n"
  by (cases n) simp_all

text \<open>What the lookup returns is the path of a host element with the identifier.\<close>

lemma find_id_node_at:
  "find_id i n = Some p \<Longrightarrow>
     \<exists>t ps kids. node_at p n = Some (HostElement t ps kids) \<and> map_of ps ''id'' = Some i"
proof (induction n arbitrary: p)
  case (HostElement t ps kids)
  show ?case
  proof (cases "map_of ps ''id'' = Some i")
    case True
    with HostElement.prems show ?thesis by simp
  next
    case False
    with HostElement.prems have "find_id_in i 0 kids = Some p" by simp
    from find_id_in_shape [OF this] obtain j q where
      jq: "p = j # q" "j < length kids" "find_id i (kids ! j) = Some q" by auto
    from jq(2) have "kids ! j \<in> set kids" by simp
    from HostElement.IH [OF this jq(3)] jq(1,2) show ?thesis by simp
  qed
next
  case (ComponentInstance c ps kids)
  then have "find_id_in i 0 kids = Some p" by simp
  from find_id_in_shape [OF this] obtain j q where
    jq: "p = j # q" "j < length kids" "find_id i (kids ! j) = Some q" by auto
  from jq(2) have "kids ! j \<in> set kids" by simp
  from ComponentInstance.IH [OF this jq(3)] jq(1,2) show ?case by simp
qed

lemma find_id_in_update:
  assumes "find_id_in i 0 kids = Some p"
    and IH: "\<And>x q. x \<in> set kids \<Longrightarrow> find_id i x = Some q \<Longrightarrow>
               find_id i (replace_children q new x) = Some q"
  shows "\<exists>j q. p = j # q \<and> j < length kids \<and>
           find_id_in i 0 (kids[j := replace_children q new (kids ! j)]) = Some p"
proof -
  from find_id_in_shape [OF assms(1)] obtain j q where
    jq: "p = j # q" "j < length kids" "find_id i (kids ! j) = Some q"
        "\<forall>j' < j. find_id i (kids ! j') = None" by auto
  let ?kids = "kids[j := replace_children q new (kids ! j)]"
  from jq(2) have "kids ! j \<in> set kids" by simp
  from IH [OF this jq(3)] jq(2) have at_j: "find_id i (?kids ! j) = Some q" by simp
  have len: "j < length ?kids" using jq(2) by simp
  have before: "\<forall>j' < j. find_id i (?kids ! j') = None" using jq(4) by simp
  have "find_id_in i 0 ?kids = Some ((0 + j) # q)"
    by (rule find_id_in_intro [OF len at_j before])
  with jq(1,2) show ?thesis by auto
qed

text \<open>
  Replacing the content of the element the lookup found does not change what the lookup
  finds: the element comes before its own content in document order.
\<close>

lemma find_id_replace_children:
  "find_id i n = Some p \<Longrightarrow> find_id i (replace_children p new n) = Some p"
proof (induction n arbitrary: p)
  case (HostElement t ps kids)
  show ?case
  proof (cases "map_of ps ''id'' = Some i")
    case True
    with HostElement.prems show ?thesis by simp
  next
    case False
    with HostElement.prems have "find_id_in i 0 kids = Some p" by simp
    from find_id_in_update [OF this HostElement.IH] False show ?thesis by auto
  qed
next
  case (ComponentInstance c ps kids)
  then have "find_id_in i 0 kids = Some p" by simp
  from find_id_in_update [OF this ComponentInstance.IH] show ?case by auto
qed

text \<open>The lookup returns null exactly when no element of the document has the identifier.\<close>

lemma find_id_in_None_iff:
  "find_id_in i k ns = None \<longleftrightarrow> (\<forall>n \<in> set ns. find_id i n = None)"
  by (induction ns arbitrary: k) (auto split: option.splits)

lemma find_id_None_iff:
  "find_id i n = None \<longleftrightarrow> \<not> has_element_with_id i n"
proof (induction n)
  case (HostElement t ps kids)
  then show ?case
    by (auto simp: has_element_with_id_def find_id_in_None_iff list_ex_iff)
next
  case (ComponentInstance c ps kids)
  then show ?case
    by (auto simp: has_element_with_id_def find_id_in_None_iff list_ex_iff)
qed

lemma node_at_replace_children:
  "node_at p n = Some m \<Longrightarrow>
     node_at p (replace_children p new n) = Some (with_children m new)"
  by (induction p arbitrary: n) (auto split: if_splits)

lemma replace_children_twice:
  "replace_children p b (replace_children p a n) = replace_children p b n"
  by (induction p arbitrary: n) auto

subsection \<open>Runs of the module in the modelled host\<close>

lemma instantiate_App:
  "instantiate (App ps) =
     HostElement ''div'' [(''className'', ''flex flex-col p-4'')]
       [ComponentInstance ''Header'' [(''title'', ''Web'')] [],
        HostElement ''div'' [(''className'', ''card'')]
          [ComponentInstance ''Counter'' [] []]]"
  by (simp add: App_def)

lemma instantiate_app_element: "instantiate app_element = instantiate (App [])"
  by (simp add: app_element_def)

lemma main_browser_found:
  assumes "find_id ''app'' d = Some p"
  shows "main browser d =
           \<lparr>outcome = Inr (), final = replace_children p [instantiate (App [])] d,
            calls = [GetElementById ''app'', CreateRoot (Some p), Render p app_element]\<rparr>"
proof -
  from find_id_node_at [OF assms] obtain t ps kids where
    "node_at p d = Some (HostElement t ps kids)" by blast
  with assms show ?thesis
    by (simp add: main_def browser_def non_null_def dom_getElementById_def
        react_createRoot_def react_render_def instantiate_app_element)
qed

lemma main_browser_missing:
  assumes "find_id ''app'' d = None"
  shows "main browser d =
           \<lparr>outcome = Inl TargetContainerNotDomElement, final = d,
            calls = [GetElementById ''app'', CreateRoot None]\<rparr>"
  using assms
  by (simp add: main_def browser_def non_null_def dom_getElementById_def react_createRoot_def)

text \<open>A run in the page is the run in its document; the queue is carried along.\<close>

lemma main_browser_with_queue:
  "main browser_with_queue \<lparr>doc = d, queue = js\<rparr> =
     \<lparr>outcome = outcome (main browser d),
      final = \<lparr>doc = final (main browser d), queue = js\<rparr>,
      calls = calls (main browser d)\<rparr>"
proof (cases "react_createRoot (dom_getElementById ''app'' d) d")
  case (Pair res d1)
  show ?thesis
  proof (cases res)
    case (Inl e)
    with Pair show ?thesis
      by (simp add: main_def browser_with_queue_def browser_def non_null_def)
  next
    case (Inr root)
    with Pair show ?thesis
      by (simp add: main_def browser_with_queue_def browser_def non_null_def react_render_def)
  qed
qed

lemma browser_with_queue_keeps_queue:
  "queue (snd (createRoot browser_with_queue c t)) = queue t"
  "queue (snd (render browser_with_queue r e t)) = queue t"
  by (simp_all add: browser_with_queue_def split: prod.splits)

lemma getElementById_browser: "getElementById browser i d = find_id i d"
  by (simp add: browser_def dom_getElementById_def)

lemma find_id_page_without_app: "find_id ''app'' page_without_app = None"
  by (simp add: page_without_app_def)

subsection \<open>The component\<close>

text \<open>
  C7. What the module asks of the two imported components: \<^verbatim>\<open>Header\<close> is used once,
  with the single property \<^verbatim>\<open>title\<close>, whose value is \<^verbatim>\<open>Web\<close>, and no children;
  \<^verbatim>\<open>Counter\<close> is used once, with no property and no child. No other component is
  referred to.
\<close>

theorem external_component_contract:
  "uses_of ''Header'' (App ps) = [Element (ComponentRef ''Header'') [(''title'', ''Web'')] []] \<and>
   map fst (concat (map props_of (uses_of ''Header'' (App ps)))) = [''title''] \<and>
   uses_of ''Counter'' (App ps) = [Element (ComponentRef ''Counter'') [] []] \<and>
   component_refs (App ps) = [''Header'', ''Counter'']"
  by (simp add: App_def uses_of_def component_refs_def List.map_filter_def)

text \<open>
  C8. \<^verbatim>\<open>App\<close> is a constant function: whatever properties it is called with, it returns
  the same element tree, and so the same tree is rendered from it.
\<close>

theorem App_constant:
  "App ps = App qs \<and> instantiate (App ps) = instantiate (App qs)"
  by (simp add: App_def)

text \<open>
  C9. The shape of the tree: the root is a \<^verbatim>\<open>div\<close> with class
  \<^verbatim>\<open>flex flex-col p-4\<close> and two children; the first is the \<^verbatim>\<open>Header\<close> with title
  \<^verbatim>\<open>Web\<close>, the second a \<^verbatim>\<open>div\<close> with class \<^verbatim>\<open>card\<close> whose only child is the
  \<^verbatim>\<open>Counter\<close>. In document order the \<^verbatim>\<open>Header\<close> comes before the
  \<^verbatim>\<open>Counter\<close>, in the element tree and in the tree rendered from it.
\<close>

theorem App_tree_shape:
  "elem_type_of (App ps) = Intrinsic ''div'' \<and>
   props_of (App ps) = [(''className'', ''flex flex-col p-4'')] \<and>
   length (children_of (App ps)) = 2 \<and>
   children_of (App ps) ! 0 = Element (ComponentRef ''Header'') [(''title'', ''Web'')] [] \<and>
   elem_type_of (children_of (App ps) ! 1) = Intrinsic ''div'' \<and>
   props_of (children_of (App ps) ! 1) = [(''className'', ''card'')] \<and>
   children_of (children_of (App ps) ! 1) = [Element (ComponentRef ''Counter'') [] []] \<and>
   map elem_type_of (elements (App ps)) =
     [Intrinsic ''div'', ComponentRef ''Header'', Intrinsic ''div'', ComponentRef ''Counter''] \<and>
   subtree (instantiate app_element) =
     [instantiate (App ps),
      ComponentInstance ''Header'' [(''title'', ''Web'')] [],
      HostElement ''div'' [(''className'', ''card'')] [ComponentInstance ''Counter'' [] []],
      ComponentInstance ''Counter'' [] []]"
  by (simp add: App_def app_element_def)

subsection \<open>Mounting into a document that has the element\<close>

text \<open>
  C1. For every host document that contains an element with identifier \<^verbatim>\<open>app\<close>, the
  lookup finds such an element, the module completes, and afterwards that element (same
  tag, same properties, still with identifier \<^verbatim>\<open>app\<close>) has the rendered tree as its
  content; the tree contains a \<^verbatim>\<open>Header\<close> with title \<^verbatim>\<open>Web\<close> and a
  \<^verbatim>\<open>Counter\<close>.
\<close>

theorem mount_populates_app:
  assumes "has_element_with_id ''app'' d"
  shows "\<exists>p n tree.
           getElementById browser ''app'' d = Some p \<and>
           node_at p d = Some n \<and> has_id ''app'' n \<and>
           outcome (main browser d) = Inr () \<and>
           node_at p (final (main browser d)) = Some (with_children n [tree]) \<and>
           tree = instantiate (App []) \<and>
           ComponentInstance ''Header'' [(''title'', ''Web'')] [] \<in> set (subtree tree) \<and>
           ComponentInstance ''Counter'' [] [] \<in> set (subtree tree)"
proof -
  from assms obtain p where found: "find_id ''app'' d = Some p"
    using find_id_None_iff [of "''app''" d] by auto
  from find_id_node_at [OF found] obtain t ps kids where
    n: "node_at p d = Some (HostElement t ps kids)" "map_of ps ''id'' = Some ''app''"
    by blast
  have run: "final (main browser d) = replace_children p [instantiate (App [])] d"
    "outcome (main browser d) = Inr ()"
    by (simp_all add: main_browser_found [OF found])
  from n(1) have "node_at p (final (main browser d)) =
      Some (with_children (HostElement t ps kids) [instantiate (App [])])"
    unfolding run(1) by (rule node_at_replace_children)
  moreover have "has_id ''app'' (HostElement t ps kids)"
    using n(2) by simp
  moreover have
    "ComponentInstance ''Header'' [(''title'', ''Web'')] [] \<in> set (subtree (instantiate (App [])))"
    "ComponentInstance ''Counter'' [] [] \<in> set (subtree (instantiate (App [])))"
    by (simp_all add: instantiate_App)
  moreover have "getElementById browser ''app'' d = Some p"
    using found by (simp add: getElementById_browser)
  ultimately show ?thesis
    using n(1) run(2) by blast
qed

theorem mount_populates_app_witness:
  "has_element_with_id ''app'' page_with_app \<and>
   (\<exists>p n tree.
      getElementById browser ''app'' page_with_app = Some p \<and>
      node_at p page_with_app = Some n \<and> has_id ''app'' n \<and>
      outcome (main browser page_with_app) = Inr () \<and>
      node_at p (final (main browser page_with_app)) = Some (with_children n [tree]) \<and>
      tree = instantiate (App []) \<and>
      ComponentInstance ''Header'' [(''title'', ''Web'')] [] \<in> set (subtree tree) \<and>
      ComponentInstance ''Counter'' [] [] \<in> set (subtree tree))"
proof -
  have h: "has_element_with_id ''app'' page_with_app"
    by (simp add: has_element_with_id_def page_with_app_def)
  show ?thesis by (rule conjI [OF h mount_populates_app [OF h]])
qed

text \<open>
  C4. For every host document that contains an element with identifier \<^verbatim>\<open>app\<close>,
  running the mount a second time, in the document the first run left, finds the same
  element, completes, and leaves the document exactly as the first run left it: the
  content of the element is the one rendered tree, not two.
\<close>

theorem remount_idempotent:
  assumes "has_element_with_id ''app'' d"
  shows "\<exists>p. getElementById browser ''app'' d = Some p \<and>
           getElementById browser ''app'' (final (main browser d)) = Some p \<and>
           outcome (main browser (final (main browser d))) = Inr () \<and>
           final (main browser (final (main browser d))) = final (main browser d) \<and>
           map_option child_nodes (node_at p (final (main browser (final (main browser d))))) =
             Some [instantiate (App [])]"
proof -
  from assms obtain p where found: "find_id ''app'' d = Some p"
    using find_id_None_iff [of "''app''" d] by auto
  let ?d1 = "replace_children p [instantiate (App [])] d"
  have first: "final (main browser d) = ?d1"
    by (simp add: main_browser_found [OF found])
  have again: "find_id ''app'' ?d1 = Some p"
    using found by (rule find_id_replace_children)
  have second: "main browser ?d1 =
      \<lparr>outcome = Inr (), final = replace_children p [instantiate (App [])] ?d1,
       calls = [GetElementById ''app'', CreateRoot (Some p), Render p app_element]\<rparr>"
    using again by (rule main_browser_found)
  from find_id_node_at [OF found] obtain t ps kids where
    "node_at p d = Some (HostElement t ps kids)" by blast
  then have "node_at p ?d1 = Some (with_children (HostElement t ps kids) [instantiate (App [])])"
    by (rule node_at_replace_children)
  then have content: "map_option child_nodes (node_at p ?d1) = Some [instantiate (App [])]"
    by simp
  have "getElementById browser ''app'' d = Some p \<and>
      getElementById browser ''app'' (final (main browser d)) = Some p \<and>
      outcome (main browser (final (main browser d))) = Inr () \<and>
      final (main browser (final (main browser d))) = final (main browser d) \<and>
      map_option child_nodes (node_at p (final (main browser (final (main browser d))))) =
        Some [instantiate (App [])]"
    unfolding first second
    using found again content by (simp add: getElementById_browser replace_children_twice)
  then show ?thesis ..
qed

theorem remount_idempotent_witness:
  "has_element_with_id ''app'' page_with_app \<and>
   (\<exists>p. getElementById browser ''app'' page_with_app = Some p \<and>
      getElementById browser ''app'' (final (main browser page_with_app)) = Some p \<and>
      outcome (main browser (final (main browser page_with_app))) = Inr () \<and>
      final (main browser (final (main browser page_with_app))) =
        final (main browser page_with_app) \<and>
      map_option child_nodes
        (node_at p (final (main browser (final (main browser page_with_app))))) =
        Some [instantiate (App [])])"
proof -
  have h: "has_element_with_id ''app'' page_with_app"
    by (simp add: has_element_with_id_def page_with_app_def)
  show ?thesis by (rule conjI [OF h remount_idempotent [OF h]])
qed

subsection \<open>Mounting into a document that lacks the element\<close>

text \<open>
  C2, as the code has it. For every host document that contains no element with identifier
  \<^verbatim>\<open>app\<close>, the lookup returns null, the non-null assertion passes null on,
  \<^verbatim>\<open>createRoot\<close> is called with null and throws, and the error of the module is that
  error; the module makes no further call: nothing catches the error and nothing is tried
  again.
\<close>

theorem missing_app_error_from_createRoot:
  assumes "\<not> has_element_with_id ''app'' d"
  shows "getElementById browser ''app'' d = None \<and>
         non_null (getElementById browser ''app'' d) = None \<and>
         fst (createRoot browser None d) = Inl TargetContainerNotDomElement \<and>
         outcome (main browser d) = Inl TargetContainerNotDomElement \<and>
         calls (main browser d) = [GetElementById ''app'', CreateRoot None]"
proof -
  from assms have missing: "find_id ''app'' d = None"
    by (simp add: find_id_None_iff)
  have "fst (createRoot browser None d) = Inl TargetContainerNotDomElement"
    by (simp add: browser_def react_createRoot_def)
  with missing show ?thesis
    by (simp add: main_browser_missing [OF missing] non_null_def getElementById_browser)
qed

theorem missing_app_error_from_createRoot_witness:
  "\<not> has_element_with_id ''app'' page_without_app \<and>
   getElementById browser ''app'' page_without_app = None \<and>
   non_null (getElementById browser ''app'' page_without_app) = None \<and>
   fst (createRoot browser None page_without_app) = Inl TargetContainerNotDomElement \<and>
   outcome (main browser page_without_app) = Inl TargetContainerNotDomElement \<and>
   calls (main browser page_without_app) = [GetElementById ''app'', CreateRoot None]"
proof -
  have h: "\<not> has_element_with_id ''app'' page_without_app"
    by (simp add: has_element_with_id_def page_without_app_def)
  show ?thesis by (rule conjI [OF h missing_app_error_from_createRoot [OF h]])
qed

text \<open>
  C2, as stated, has the error come from the non-null assertion, so that the run would end
  at the assertion. The document \<open>page_without_app\<close> contains no element with identifier
  \<^verbatim>\<open>app\<close>; there the assertion yields null without throwing, and the run goes on to
  call \<^verbatim>\<open>createRoot\<close> with null: the last call of the run is that call, and the error
  is the one it throws.
\<close>

theorem error_not_from_assertion_counterexample:
  "\<not> has_element_with_id ''app'' page_without_app \<and>
   non_null (getElementById browser ''app'' page_without_app) = None \<and>
   last (calls (main browser page_without_app)) = CreateRoot None \<and>
   fst (createRoot browser None page_without_app) = Inl TargetContainerNotDomElement \<and>
   outcome (main browser page_without_app) = Inl TargetContainerNotDomElement"
proof -
  have "\<not> has_element_with_id ''app'' page_without_app"
    by (simp add: has_element_with_id_def page_without_app_def)
  moreover have
    "fst (createRoot browser None page_without_app) = Inl TargetContainerNotDomElement"
    by (simp add: browser_def react_createRoot_def)
  ultimately show ?thesis
    by (simp add: getElementById_browser find_id_page_without_app non_null_def
        main_browser_missing [OF find_id_page_without_app])
qed

text \<open>
  C3. For every host document that contains no element with identifier \<^verbatim>\<open>app\<close>, the
  run ends with an error, none of its calls is a render, and the document at the end is
  the document at the start.
\<close>

theorem missing_app_fails_before_render:
  assumes "\<not> has_element_with_id ''app'' d"
  shows "isl (outcome (main browser d)) \<and>
         filter is_render (calls (main browser d)) = [] \<and>
         final (main browser d) = d"
proof -
  from assms have missing: "find_id ''app'' d = None"
    by (simp add: find_id_None_iff)
  show ?thesis
    by (simp add: main_browser_missing [OF missing])
qed

theorem missing_app_fails_before_render_witness:
  "\<not> has_element_with_id ''app'' page_without_app \<and>
   isl (outcome (main browser page_without_app)) \<and>
   filter is_render (calls (main browser page_without_app)) = [] \<and>
   final (main browser page_without_app) = page_without_app"
proof -
  have h: "\<not> has_element_with_id ''app'' page_without_app"
    by (simp add: has_element_with_id_def page_without_app_def)
  show ?thesis by (rule conjI [OF h missing_app_fails_before_render [OF h]])
qed

subsection \<open>The module over any host\<close>

text \<open>
  The following hold for every host: whatever \<^verbatim>\<open>getElementById\<close>,
  \<^verbatim>\<open>createRoot\<close> and \<^verbatim>\<open>render\<close> do, and in whatever state the module starts.
\<close>

text \<open>
  C5. Every run of the module, in every host, calls \<^verbatim>\<open>createRoot\<close> exactly once,
  after the one lookup, and calls \<^verbatim>\<open>render\<close> once if \<^verbatim>\<open>createRoot\<close> returned a
  root and not at all if it threw; it makes no other call, so there is never a second
  mount. The run is one uninterrupted sequence: \<^verbatim>\<open>createRoot\<close> starts in the state
  the module started in, \<^verbatim>\<open>render\<close> starts in the state \<^verbatim>\<open>createRoot\<close> returned,
  and the state at the end of the run is the state the last call returned. The module adds
  no work of its own: whatever part of the state the two calls leave as it is (the queue of
  pending jobs, in a host where they queue nothing) is at the end of the run as it was at
  the start. In the host with its queue, the mount is synchronous: when the run ends, the
  queue holds the jobs it held before and no other, and the document is already the
  mounted one (the tree is the content of the element found, or the document is unchanged
  if none was found).
\<close>

theorem single_synchronous_mount:
  "length (filter is_createRoot (calls (main h s))) = 1 \<and>
   length (filter is_render (calls (main h s))) =
     (if isl (fst (createRoot h (getElementById h ''app'' s) s)) then 0 else 1) \<and>
   calls (main h s) =
     [GetElementById ''app'', CreateRoot (getElementById h ''app'' s)] @
     filter is_render (calls (main h s)) \<and>
   final (main h s) =
     (case createRoot h (getElementById h ''app'' s) s of
        (Inl e, s1) \<Rightarrow> s1
      | (Inr root, s1) \<Rightarrow> snd (render h root app_element s1)) \<and>
   outcome (main h s) =
     (case createRoot h (getElementById h ''app'' s) s of
        (Inl e, s1) \<Rightarrow> Inl e
      | (Inr root, s1) \<Rightarrow> fst (render h root app_element s1)) \<and>
   ((\<forall>c t. pending (snd (createRoot h c t)) = pending t) \<and>
    (\<forall>r e t. pending (snd (render h r e t)) = pending t) \<longrightarrow>
    pending (final (main h s)) = pending s) \<and>
   queue (final (main browser_with_queue \<lparr>doc = d, queue = js\<rparr>)) = js \<and>
   doc (final (main browser_with_queue \<lparr>doc = d, queue = js\<rparr>)) =
     (case getElementById browser ''app'' d of
        None \<Rightarrow> d
      | Some p \<Rightarrow> replace_children p [instantiate (App [])] d)"
proof -
  have run: "length (filter is_createRoot (calls (main h s))) = 1 \<and>
   length (filter is_render (calls (main h s))) =
     (if isl (fst (createRoot h (getElementById h ''app'' s) s)) then 0 else 1) \<and>
   calls (main h s) =
     [GetElementById ''app'', CreateRoot (getElementById h ''app'' s)] @
     filter is_render (calls (main h s)) \<and>
   final (main h s) =
     (case createRoot h (getElementById h ''app'' s) s of
        (Inl e, s1) \<Rightarrow> s1
      | (Inr root, s1) \<Rightarrow> snd (render h root app_element s1)) \<and>
   outcome (main h s) =
     (case createRoot h (getElementById h ''app'' s) s of
        (Inl e, s1) \<Rightarrow> Inl e
      | (Inr root, s1) \<Rightarrow> fst (render h root app_element s1))"
    by (simp add: main_def non_null_def split: prod.splits sum.splits)
  have frame: "pending (final (main h s)) = pending s"
    if c: "\<forall>c t. pending (snd (createRoot h c t)) = pending t"
      and r: "\<forall>r e t. pending (snd (render h r e t)) = pending t"
  proof (cases "createRoot h (getElementById h ''app'' s) s")
    case (Pair res s1)
    from c have s1: "pending s1 = pending s"
      using Pair by (metis snd_conv)
    show ?thesis
    proof (cases res)
      case (Inl e)
      with Pair s1 show ?thesis by (simp add: main_def non_null_def)
    next
      case (Inr root)
      from r have "pending (snd (render h root app_element s1)) = pending s1" by blast
      with Pair Inr s1 show ?thesis
        by (auto simp: main_def non_null_def split: prod.splits)
    qed
  qed
  have queue: "queue (final (main browser_with_queue \<lparr>doc = d, queue = js\<rparr>)) = js"
    by (simp add: main_browser_with_queue)
  have complete: "doc (final (main browser_with_queue \<lparr>doc = d, queue = js\<rparr>)) =
     (case getElementById browser ''app'' d of
        None \<Rightarrow> d
      | Some p \<Rightarrow> replace_children p [instantiate (App [])] d)"
  proof (cases "find_id ''app'' d")
    case None
    then show ?thesis
      by (simp add: main_browser_with_queue main_browser_missing getElementById_browser)
  next
    case (Some p)
    then show ?thesis
      by (simp add: main_browser_with_queue main_browser_found getElementById_browser)
  qed
  from run frame queue complete show ?thesis by blast
qed

theorem single_synchronous_mount_witness:
  "(\<forall>c t. queue (snd (createRoot browser_with_queue c t)) = queue t) \<and>
   (\<forall>r e t. queue (snd (render browser_with_queue r e t)) = queue t) \<and>
   queue (final (main browser_with_queue
     \<lparr>doc = page_with_app, queue = [DeferredRender [0] app_element]\<rparr>)) =
     [DeferredRender [0] app_element] \<and>
   doc (final (main browser_with_queue
     \<lparr>doc = page_with_app, queue = [DeferredRender [0] app_element]\<rparr>)) =
     replace_children [1, 0] [instantiate (App [])] page_with_app \<and>
   length (filter is_createRoot (calls (main browser_with_queue
     \<lparr>doc = page_with_app, queue = [DeferredRender [0] app_element]\<rparr>))) = 1 \<and>
   length (filter is_render (calls (main browser_with_queue
     \<lparr>doc = page_with_app, queue = [DeferredRender [0] app_element]\<rparr>))) = 1"
proof -
  let ?s = "\<lparr>doc = page_with_app, queue = [DeferredRender [0] app_element]\<rparr>"
  have keeps_createRoot:
    "\<forall>c t. queue (snd (createRoot browser_with_queue c t)) = queue t"
    by (simp add: browser_with_queue_keeps_queue)
  have keeps_render:
    "\<forall>r e t. queue (snd (render browser_with_queue r e t)) = queue t"
    by (simp add: browser_with_queue_keeps_queue)
  have found: "getElementById browser ''app'' page_with_app = Some [1, 0]"
    by (simp add: getElementById_browser page_with_app_def)
  have returned: "\<not> isl (fst (createRoot browser_with_queue
      (getElementById browser_with_queue ''app'' ?s) ?s))"
    by (simp add: browser_with_queue_def dom_getElementById_def react_createRoot_def
        page_with_app_def)
  note run = single_synchronous_mount
    [of browser_with_queue ?s queue page_with_app "[DeferredRender [0] app_element]"]
  from run have creates:
    "length (filter is_createRoot (calls (main browser_with_queue ?s))) = 1"
    by (rule conjunct1)
  from run have "length (filter is_render (calls (main browser_with_queue ?s))) =
      (if isl (fst (createRoot browser_with_queue
         (getElementById browser_with_queue ''app'' ?s) ?s)) then 0 else 1)"
    by blast
  with returned have renders:
    "length (filter is_render (calls (main browser_with_queue ?s))) = 1"
    by (simp only: if_False)
  from run keeps_createRoot keeps_render
  have "queue (final (main browser_with_queue ?s)) = queue ?s"
    by blast
  then have kept: "queue (final (main browser_with_queue ?s)) = [DeferredRender [0] app_element]"
    by simp
  from run have "doc (final (main browser_with_queue ?s)) =
     (case getElementById browser ''app'' page_with_app of
        None \<Rightarrow> page_with_app
      | Some p \<Rightarrow> replace_children p [instantiate (App [])] page_with_app)"
    by blast
  with found have mounted: "doc (final (main browser_with_queue ?s)) =
      replace_children [1, 0] [instantiate (App [])] page_with_app"
    by (simp only: option.case)
  from keeps_createRoot keeps_render kept mounted creates renders
  show ?thesis by blast
qed



subsection \<open>The file as a whole\<close>


end
